theory Spec2Isabelle
  imports Main "HOL-Library.Sublist"
begin

section \<open>The UCI support bot (gmail\_bot.py)\<close>

text \<open>
  The program is one class, \<open>UciSupportBot\<close>, around two mail sessions (an IMAP client and
  an SMTP client) and one regular-expression scan. Python text is modelled as \<open>string\<close>
  (a list of 8-bit characters): the UTF-8 encoding of the text, hence the text itself
  when it is ASCII; lengths and positions are Python's for ASCII text. Exceptions are
  values of the type \<open>exn\<close>; a function that may raise returns \<open>exn + 'a\<close> with \<open>Inl\<close>
  for the exception.
\<close>

subsection \<open>Exceptions and the bot object\<close>

datatype exn =
    UciInvalidEmail string
  | ValueError string
  | TypeError
  | LoginError
  | Gaierror
  | UnicodeDecodeError
  | HeaderParseError
  | OtherError string

text \<open>
  \<open>LoginError\<close> is \<open>imapclient.exceptions.LoginError\<close> and \<open>Gaierror\<close> is
  \<open>socket.gaierror\<close>, the two classes named in the \<open>except\<close> clauses of \<open>run_bot\<close>.
  \<open>UnicodeDecodeError\<close> is raised by \<open>bytes.decode\<close> and \<open>HeaderParseError\<close>
  (\<open>email.errors\<close>) by \<open>Message.as_string\<close>. \<open>OtherError\<close> stands for an exception of
  any other class raised by a library call (for instance
  \<open>smtplib.SMTPAuthenticationError\<close>, or \<open>LookupError\<close> for an unknown charset).
\<close>

record bot =
  email :: string
  password :: string
  response :: string
  email_sent :: bool
  email_found :: bool

definition uci_domain :: string where
  "uci_domain = ''@uci.edu''"

subsection \<open>String methods used by the class\<close>

definition endswith :: "string \<Rightarrow> string \<Rightarrow> bool" where
  "endswith s suf = (length suf \<le> length s \<and> drop (length s - length suf) s = suf)"

text \<open>
  \<open>str.count\<close>: the number of non-overlapping occurrences, scanning from the left and
  jumping over each occurrence found.
\<close>

function str_count :: "string \<Rightarrow> string \<Rightarrow> nat" where
  "str_count s sub =
     (if sub = [] then length s + 1
      else if length s < length sub then 0
      else if take (length sub) s = sub then 1 + str_count (drop (length sub) s) sub
      else str_count (tl s) sub)"
  by pat_completeness auto
termination
  by (relation "measure (\<lambda>(s, sub). length s)") (auto simp: neq_Nil_conv)

declare str_count.simps [simp del]

text \<open>\<open>str.lower\<close> on ASCII text.\<close>

definition lower_char :: "char \<Rightarrow> char" where
  "lower_char c =
     (let n = (of_char c :: nat)
      in if 65 \<le> n \<and> n \<le> 90 then char_of (n + 32) else c)"

definition lower :: "string \<Rightarrow> string" where
  "lower s = map lower_char s"

subsection \<open>The property setters and the constructor\<close>

definition invalid_email_message :: "string \<Rightarrow> string" where
  "invalid_email_message email_address =
     ''UciSupportBot.email: email_address('' @ email_address @
     '') must contain only 1 @uci.edu,end with @uci.edu, and the length has to be greater than length of @uci.edu''"

text \<open>
  The \<open>email\<close> setter: the value stored in \<open>_email\<close>, or the exception raised.
\<close>

definition email_setter :: "string \<Rightarrow> exn + string" where
  "email_setter email_address =
     (if length email_address > length uci_domain \<and> endswith email_address uci_domain
         \<and> str_count email_address uci_domain = 1
      then Inr email_address
      else Inl (UciInvalidEmail (invalid_email_message email_address)))"

definition invalid_response_message :: "string \<Rightarrow> string" where
  "invalid_response_message user_response =
     ''UciSupportBot.response: given response('' @ user_response @ '') must be Not Today/No/Yes''"

definition response_setter :: "string \<Rightarrow> exn + string" where
  "response_setter user_response =
     (if lower user_response = ''not today'' \<or> lower user_response = ''no''
         \<or> lower user_response = ''yes''
      then Inr (lower user_response)
      else Inl (ValueError (invalid_response_message user_response)))"

text \<open>
  \<open>__init__\<close> assigns \<open>email\<close> (through its setter), \<open>_password\<close>, \<open>response\<close> (through
  its setter) and the two flags, in this order; the first setter that raises ends the
  construction.
\<close>

definition init :: "string \<Rightarrow> string \<Rightarrow> string \<Rightarrow> exn + bot" where
  "init email_address pass user_response =
     (case email_setter email_address of
        Inl e \<Rightarrow> Inl e
      | Inr stored_email \<Rightarrow>
          (case response_setter user_response of
             Inl e \<Rightarrow> Inl e
           | Inr stored_response \<Rightarrow>
               Inr \<lparr>email = stored_email, password = pass, response = stored_response,
                    email_sent = False, email_found = False\<rparr>))"

definition bot_summary :: "bot \<Rightarrow> bool \<times> bool" where
  "bot_summary self = (email_sent self, email_found self)"

text \<open>
  The number of positions of \<open>s\<close> at which \<open>sub\<close> occurs, overlapping occurrences
  included: the reading of "occurrences" that does not depend on how \<open>str.count\<close> scans.
\<close>

fun occurrences :: "string \<Rightarrow> string \<Rightarrow> nat" where
  "occurrences sub [] = (if sub = [] then 1 else 0)"
| "occurrences sub (c # cs) = (if prefix sub (c # cs) then 1 else 0) + occurrences sub cs"

subsection \<open>The mailto pattern and \<open>re.finditer\<close>\<close>

text \<open>
  The pattern of \<open>_parse_email\<close> is
  \<^verbatim>\<open>mailto:(?P<emails>.+)\?subject=(?P<subject>.+)&amp;body=(?P<body>.+)\<close>:
  literal text and three named groups, each a greedy \<open>.+\<close>. \<open>Lit l\<close> is the literal
  \<open>l\<close> and \<open>Group name\<close> is \<open>(?P<name>.+)\<close>. No flag is given, so \<open>.\<close> matches every
  character but the line feed.
\<close>

datatype item = Lit string | Group string

definition mailto_pattern :: "item list" where
  "mailto_pattern =
     [Lit ''mailto:'', Group ''emails'', Lit ''?subject='', Group ''subject'',
      Lit ''&amp;body='', Group ''body'']"

record re_match =
  span_start :: nat
  span_end :: nat
  groupdict :: "(string \<times> string) list"

text \<open>
  \<open>first_from f k\<close> tries the lengths \<open>k\<close>, \<open>k - 1\<close>, \dots, \<open>1\<close> in this order and
  keeps the first success: a greedy \<open>.+\<close> takes the longest run first and gives
  characters back one by one when the rest of the pattern fails.
\<close>

primrec first_from :: "(nat \<Rightarrow> 'a option) \<Rightarrow> nat \<Rightarrow> 'a option" where
  "first_from f 0 = None"
| "first_from f (Suc k) = (case f (Suc k) of Some r \<Rightarrow> Some r | None \<Rightarrow> first_from f k)"

definition dot_run :: "string \<Rightarrow> nat" where
  "dot_run s = length (takeWhile (\<lambda>c. c \<noteq> CHR 0x0A) s)"

text \<open>
  A match of the items at the head of \<open>s\<close>: the captured groups and the number of
  characters consumed, or \<open>None\<close>.
\<close>

primrec match_items :: "item list \<Rightarrow> string \<Rightarrow> ((string \<times> string) list \<times> nat) option" where
  "match_items [] s = Some ([], 0)"
| "match_items (it # its) s =
     (case it of
        Lit l \<Rightarrow>
          (if take (length l) s = l
           then map_option (\<lambda>(gs, n). (gs, length l + n)) (match_items its (drop (length l) s))
           else None)
      | Group name \<Rightarrow>
          first_from
            (\<lambda>k. map_option (\<lambda>(gs, n). ((name, take k s) # gs, k + n))
                   (match_items its (drop k s)))
            (dot_run s))"

text \<open>
  \<open>re.finditer\<close>: the leftmost match from \<open>pos\<close> on, then the search goes on where that
  match ended. The pattern of the program never matches the empty string; the \<open>max\<close>
  only keeps the scan moving for a pattern that would.
\<close>

function finditer_from :: "item list \<Rightarrow> string \<Rightarrow> nat \<Rightarrow> re_match list" where
  "finditer_from p s pos =
     (if length s < pos then []
      else (case match_items p (drop pos s) of
              None \<Rightarrow> finditer_from p s (pos + 1)
            | Some (gs, n) \<Rightarrow>
                \<lparr>span_start = pos, span_end = pos + n, groupdict = gs\<rparr>
                  # finditer_from p s (max (pos + n) (pos + 1))))"
  by pat_completeness auto
termination
  by (relation "measure (\<lambda>(p, s, pos). length s + 1 - pos)") auto

declare finditer_from.simps [simp del]

definition finditer :: "item list \<Rightarrow> string \<Rightarrow> re_match list" where
  "finditer p s = finditer_from p s 0"

subsection \<open>The link extractor\<close>

text \<open>
  A retrieved message (\<open>pyzmail.PyzMessage\<close>) with its optional plain-text and HTML parts.
  An HTML part is given by what \<open>get_payload().decode(charset)\<close> does on it: \<open>Inr\<close> the
  decoded text, or \<open>Inl\<close> the exception the decoding raises (\<open>UnicodeDecodeError\<close> for
  bytes the charset cannot decode, \<open>LookupError\<close> for an unknown charset, \<open>TypeError\<close>
  for a part that declares none).
\<close>

record message =
  text_part :: "string option"
  html_part :: "(exn + string) option"

definition parse_email :: "message \<Rightarrow> exn + re_match list option" where
  "parse_email m =
     (case html_part m of
        Some decoded \<Rightarrow>
          (case decoded of
             Inl e \<Rightarrow> Inl e
           | Inr html_text \<Rightarrow> Inr (Some (finditer mailto_pattern html_text)))
      | None \<Rightarrow> Inr None)"

text \<open>The dictionary of \<open>_parse_mailto_link\<close>, read with \<open>.get\<close>.\<close>

definition answer_index :: "string \<Rightarrow> int option" where
  "answer_index r = map_of [(''not today'', 0), (''no'', 1), (''yes'', 2)] r"

text \<open>
  The loop of \<open>_parse_mailto_link\<close>. A response outside the dictionary leaves \<open>count\<close>
  at \<open>None\<close>, and \<open>count -= 1\<close> then raises \<open>TypeError\<close>.
\<close>

fun walk_links :: "int option \<Rightarrow> re_match list \<Rightarrow> exn + re_match option" where
  "walk_links count [] = Inr None"
| "walk_links count (mailto_link # links) =
     (case count of
        None \<Rightarrow> Inl TypeError
      | Some c \<Rightarrow> if c = 0 then Inr (Some mailto_link) else walk_links (Some (c - 1)) links)"

definition parse_mailto_link :: "bot \<Rightarrow> re_match list \<Rightarrow> exn + re_match option" where
  "parse_mailto_link self links = walk_links (answer_index (response self)) links"

fun find_email :: "bot \<Rightarrow> message list \<Rightarrow> exn + re_match option" where
  "find_email self [] = Inr None"
| "find_email self (m # ms) =
     (case parse_email m of
        Inl e \<Rightarrow> Inl e
      | Inr None \<Rightarrow> find_email self ms
      | Inr (Some parsed_links) \<Rightarrow>
          (case parse_mailto_link self parsed_links of
             Inl e \<Rightarrow> Inl e
           | Inr None \<Rightarrow> find_email self ms
           | Inr (Some email_content) \<Rightarrow> Inr (Some email_content)))"

subsection \<open>Composing the reply\<close>

text \<open>
  \<open>urllib.parse.unquote_to_bytes\<close> on ASCII text: every \<open>%\<close> followed by two
  hexadecimal digits becomes the byte they denote, and a \<open>%\<close> not followed by two
  hexadecimal digits stays as it is.
\<close>

definition hex_digit :: "char \<Rightarrow> nat option" where
  "hex_digit c =
     (let n = (of_char c :: nat)
      in if 48 \<le> n \<and> n \<le> 57 then Some (n - 48)
         else if 65 \<le> n \<and> n \<le> 70 then Some (n - 55)
         else if 97 \<le> n \<and> n \<le> 102 then Some (n - 87)
         else None)"

fun unquote_to_bytes :: "string \<Rightarrow> string" where
  "unquote_to_bytes [] = []"
| "unquote_to_bytes (c # cs) =
     (if c = CHR ''%'' then
        (case cs of
           h1 # h2 # rest \<Rightarrow>
             (case (hex_digit h1, hex_digit h2) of
                (Some a, Some b) \<Rightarrow> char_of (16 * a + b) # unquote_to_bytes rest
              | _ \<Rightarrow> c # unquote_to_bytes cs)
         | _ \<Rightarrow> c # unquote_to_bytes cs)
      else c # unquote_to_bytes cs)"

text \<open>
  \<open>bytes.decode('utf-8', 'replace')\<close>, the result again in UTF-8. A well-formed sequence
  is kept. Otherwise the longest start of a well-formed sequence (one byte at least)
  becomes U+FFFD, the bytes \<open>EF BF BD\<close>, and decoding goes on at the next byte.
\<close>

definition replacement_character :: string where
  "replacement_character = [CHR 0xEF, CHR 0xBF, CHR 0xBD]"

definition continuation :: "char \<Rightarrow> bool" where
  "continuation c = (128 \<le> (of_char c :: nat) \<and> (of_char c :: nat) < 192)"

text \<open>The second byte a lead byte admits: the ranges that exclude overlong forms,
  surrogates and code points beyond U+10FFFF.\<close>

definition second_ok :: "char \<Rightarrow> char \<Rightarrow> bool" where
  "second_ok lead c =
     (let l = (of_char lead :: nat); n = (of_char c :: nat)
      in if l = 224 then 160 \<le> n \<and> n < 192
         else if l = 237 then 128 \<le> n \<and> n < 160
         else if l = 240 then 144 \<le> n \<and> n < 192
         else if l = 244 then 128 \<le> n \<and> n < 144
         else continuation c)"

fun decode_replace :: "string \<Rightarrow> string" where
  "decode_replace [] = []"
| "decode_replace (b # bs) =
     (let n = (of_char b :: nat)
      in if n < 128 then b # decode_replace bs
         else if n < 194 \<or> 245 \<le> n then replacement_character @ decode_replace bs
         else (case bs of
                 [] \<Rightarrow> replacement_character
               | b2 # r2 \<Rightarrow>
                   if second_ok b b2 then
                     (if n < 224 then b # b2 # decode_replace r2
                      else (case r2 of
                              [] \<Rightarrow> replacement_character
                            | b3 # r3 \<Rightarrow>
                                if continuation b3 then
                                  (if n < 240 then b # b2 # b3 # decode_replace r3
                                   else (case r3 of
                                           [] \<Rightarrow> replacement_character
                                         | b4 # r4 \<Rightarrow>
                                             if continuation b4
                                             then b # b2 # b3 # b4 # decode_replace r4
                                             else replacement_character @ decode_replace r3))
                                else replacement_character @ decode_replace r2))
                   else replacement_character @ decode_replace bs))"

text \<open>
  \<open>urllib.parse.unquote\<close>: each maximal run of ASCII characters is unquoted to bytes and
  decoded as UTF-8 with replacement; the characters outside ASCII stay as they are.
\<close>

definition is_ascii :: "char \<Rightarrow> bool" where
  "is_ascii c = ((of_char c :: nat) < 128)"

function unquote :: "string \<Rightarrow> string" where
  "unquote [] = []"
| "unquote (c # cs) =
     (if is_ascii c
      then decode_replace (unquote_to_bytes (c # takeWhile is_ascii cs))
             @ unquote (dropWhile is_ascii cs)
      else c # unquote cs)"
  by pat_completeness auto
termination
  by (relation "measure length") (auto simp: le_imp_less_Suc length_dropWhile_le)

text \<open>\<open>str.split(sep)\<close> for a separator of one character, and \<open>sep.join\<close>.\<close>

fun split_on :: "char \<Rightarrow> string \<Rightarrow> string list" where
  "split_on sep [] = [[]]"
| "split_on sep (c # cs) =
     (if c = sep then [] # split_on sep cs
      else (case split_on sep cs of
              w # ws \<Rightarrow> (c # w) # ws
            | [] \<Rightarrow> [[c]]))"

fun join :: "string \<Rightarrow> string list \<Rightarrow> string" where
  "join sep [] = []"
| "join sep [x] = x"
| "join sep (x # y # ys) = x @ sep @ join sep (y # ys)"

text \<open>
  The composed message (\<open>MIMEMultipart\<close>): the three headers the method sets and the
  attached parts, each a subtype and its text.
\<close>

record mime_message =
  header_from :: string
  header_to :: string
  header_subject :: string
  parts :: "(string \<times> string) list"

type_synonym failed_recipients = "(string \<times> int \<times> string) list"

subsection \<open>The two mail servers\<close>

text \<open>
  The servers and the libraries are outside the program. A \<open>world\<close> fixes what each
  library call of one run does: \<open>None\<close> when the call succeeds, \<open>Some e\<close> when it
  raises \<open>e\<close>. \<open>as_string\<close> is \<open>Message.as_string\<close> on the composed message: it raises
  \<open>HeaderParseError\<close> when a header holds a line break followed by what reads as another
  header. \<open>inbox\<close> is
  the outcome of the select, search and fetch calls of \<open>_find_emails\<close> (today's messages
  from the support address), \<open>sendmail_reply\<close> the outcome of \<open>SMTP.sendmail\<close>: an
  exception, or the dictionary of refused recipients.
\<close>

record world =
  imap_connect :: "exn option"
  imap_login :: "exn option"
  smtp_connect :: "exn option"
  smtp_ehlo :: "exn option"
  smtp_starttls :: "exn option"
  smtp_login :: "exn option"
  inbox :: "exn + message list"
  as_string :: "mime_message \<Rightarrow> exn option"
  sendmail_reply :: "exn + failed_recipients"
  imap_logout :: "exn option"
  smtp_quit :: "exn option"

text \<open>
  The library calls and prints of a run, in the order the program makes them. A call is
  recorded whether it succeeds or raises.
\<close>

datatype event =
    ImapConnect string
  | ImapLogin string string
  | SmtpConnect string nat
  | SmtpEhlo
  | SmtpStarttls
  | SmtpLogin string string
  | FindEmails
  | Sendmail string "string list" mime_message
  | ImapLogout
  | SmtpQuit
  | Print string

definition imap_server_domain :: string where
  "imap_server_domain = ''imap.gmail.com''"

definition smtp_server_domain :: string where
  "smtp_server_domain = ''smtp.gmail.com''"

definition create_imap_server :: "world \<Rightarrow> bot \<Rightarrow> (exn + unit) \<times> event list" where
  "create_imap_server w self =
     (case imap_connect w of
        Some e \<Rightarrow> (Inl e, [ImapConnect imap_server_domain])
      | None \<Rightarrow>
          (case imap_login w of
             Some e \<Rightarrow>
               (Inl e, [ImapConnect imap_server_domain, ImapLogin (email self) (password self)])
           | None \<Rightarrow>
               (Inr (), [ImapConnect imap_server_domain, ImapLogin (email self) (password self)])))"

definition create_smtp_server :: "world \<Rightarrow> bot \<Rightarrow> (exn + unit) \<times> event list" where
  "create_smtp_server w self =
     (case smtp_connect w of
        Some e \<Rightarrow> (Inl e, [SmtpConnect smtp_server_domain 587])
      | None \<Rightarrow>
          (case smtp_ehlo w of
             Some e \<Rightarrow> (Inl e, [SmtpConnect smtp_server_domain 587, SmtpEhlo])
           | None \<Rightarrow>
               (case smtp_starttls w of
                  Some e \<Rightarrow> (Inl e, [SmtpConnect smtp_server_domain 587, SmtpEhlo, SmtpStarttls])
                | None \<Rightarrow>
                    (case smtp_login w of
                       Some e \<Rightarrow>
                         (Inl e, [SmtpConnect smtp_server_domain 587, SmtpEhlo, SmtpStarttls,
                                  SmtpLogin (email self) (password self)])
                     | None \<Rightarrow>
                         (Inr (), [SmtpConnect smtp_server_domain 587, SmtpEhlo, SmtpStarttls,
                                   SmtpLogin (email self) (password self)])))))"

definition find_emails :: "world \<Rightarrow> (exn + message list) \<times> event list" where
  "find_emails w = (inbox w, [FindEmails])"

definition send_email ::
  "world \<Rightarrow> bot \<Rightarrow> string \<Rightarrow> string \<Rightarrow> string \<Rightarrow> (exn + failed_recipients) \<times> event list" where
  "send_email w self emails subject body =
     (let message =
            \<lparr>header_from = email self,
             header_to = join '', '' (split_on CHR '','' emails),
             header_subject = unquote subject,
             parts = [(''plain'', unquote body)]\<rparr>
      in (case as_string w message of
            Some e \<Rightarrow> (Inl e, [])
          | None \<Rightarrow>
              (sendmail_reply w, [Sendmail (email self) (split_on CHR '','' emails) message])))"

text \<open>
  The call \<open>self._send_email(smtp_server, **email_contents.groupdict())\<close>: the named
  groups become the keyword arguments \<open>emails\<close>, \<open>subject\<close> and \<open>body\<close>; a missing or an
  unexpected keyword raises \<open>TypeError\<close>.
\<close>

definition send_email_kwargs ::
  "world \<Rightarrow> bot \<Rightarrow> (string \<times> string) list \<Rightarrow> (exn + failed_recipients) \<times> event list" where
  "send_email_kwargs w self kwargs =
     (if filter (\<lambda>k. k \<noteq> ''emails'' \<and> k \<noteq> ''subject'' \<and> k \<noteq> ''body'') (map fst kwargs) \<noteq> []
      then (Inl TypeError, [])
      else (case (map_of kwargs ''emails'', map_of kwargs ''subject'', map_of kwargs ''body'') of
              (Some emails, Some subject, Some body) \<Rightarrow> send_email w self emails subject body
            | _ \<Rightarrow> (Inl TypeError, [])))"

subsection \<open>One run\<close>

text \<open>
  The \<open>try\<close> block of \<open>run_bot\<close>: how it ends (\<open>Inl e\<close> when \<open>e\<close> was raised), the bot
  with its flags, whether the variables \<open>imap_server\<close> and \<open>smtp_server\<close> have been
  assigned (they are \<open>None\<close> until the helper that creates the session returns), and
  the events.
\<close>

definition try_block :: "world \<Rightarrow> bot \<Rightarrow> (exn + unit) \<times> bot \<times> bool \<times> bool \<times> event list" where
  "try_block w self =
     (case create_imap_server w self of
        (Inl e, t1) \<Rightarrow> (Inl e, self, False, False, t1)
      | (Inr _, t1) \<Rightarrow>
          (case create_smtp_server w self of
             (Inl e, t2) \<Rightarrow> (Inl e, self, True, False, t1 @ t2)
           | (Inr _, t2) \<Rightarrow>
               (case find_emails w of
                  (Inl e, t3) \<Rightarrow> (Inl e, self, True, True, t1 @ t2 @ t3)
                | (Inr emails, t3) \<Rightarrow>
                    (case find_email self emails of
                       Inl e \<Rightarrow> (Inl e, self, True, True, t1 @ t2 @ t3)
                     | Inr None \<Rightarrow> (Inr (), self, True, True, t1 @ t2 @ t3)
                     | Inr (Some email_contents) \<Rightarrow>
                         (case send_email_kwargs w (self\<lparr>email_found := True\<rparr>)
                                 (groupdict email_contents) of
                            (Inl e, t4) \<Rightarrow>
                              (Inl e, self\<lparr>email_found := True\<rparr>, True, True, t1 @ t2 @ t3 @ t4)
                          | (Inr failed_emails, t4) \<Rightarrow>
                              (Inr (),
                               (if length failed_emails = 0
                                then self\<lparr>email_found := True, email_sent := True\<rparr>
                                else self\<lparr>email_found := True\<rparr>),
                               True, True, t1 @ t2 @ t3 @ t4))))))"

text \<open>
  The \<open>except\<close> clauses: the two handled classes print and return, every other
  exception stays pending.
\<close>

definition except_clauses :: "exn + unit \<Rightarrow> exn option \<times> event list" where
  "except_clauses r =
     (case r of
        Inr _ \<Rightarrow> (None, [])
      | Inl e \<Rightarrow>
          (if e = LoginError then
             (None, [Print ''UciSupportBot.run_bot: Could not connect to a imap server. Given Credentials Invalid.''])
           else if e = Gaierror then
             (None, [Print ''UCISupportBot.run_bot: Failed to establish a connection.''])
           else (Some e, [])))"

text \<open>
  The \<open>finally\<close> block: \<open>logout\<close> when \<open>imap_server\<close> is assigned, then \<open>quit\<close> when
  \<open>smtp_server\<close> is; an exception raised by \<open>logout\<close> skips \<open>quit\<close>.
\<close>

definition finally_block :: "world \<Rightarrow> bool \<Rightarrow> bool \<Rightarrow> exn option \<times> event list" where
  "finally_block w imap_server smtp_server =
     (if imap_server then
        (case imap_logout w of
           Some e \<Rightarrow> (Some e, [ImapLogout])
         | None \<Rightarrow>
             (if smtp_server then (smtp_quit w, [ImapLogout, SmtpQuit])
              else (None, [ImapLogout])))
      else if smtp_server then (smtp_quit w, [SmtpQuit])
      else (None, []))"

text \<open>
  \<open>run_bot\<close>: the exception that leaves the method (\<open>None\<close> when it returns), the bot
  after the run and the events of the run. An exception raised in the \<open>finally\<close> block
  replaces a pending one.
\<close>

definition run_bot :: "world \<Rightarrow> bot \<Rightarrow> exn option \<times> bot \<times> event list" where
  "run_bot w self =
     (case try_block w self of
        (r, self', imap_server, smtp_server, t) \<Rightarrow>
          (case except_clauses r of
             (pending, t_except) \<Rightarrow>
               (case finally_block w imap_server smtp_server of
                  (raised, t_finally) \<Rightarrow>
                    ((case raised of Some e \<Rightarrow> Some e | None \<Rightarrow> pending),
                     self', t @ t_except @ t_finally))))"

text \<open>The parts of the outcome of the \<open>try\<close> block and of a run.\<close>

definition try_result :: "world \<Rightarrow> bot \<Rightarrow> exn + unit" where
  "try_result w self = fst (try_block w self)"

definition imap_assigned :: "world \<Rightarrow> bot \<Rightarrow> bool" where
  "imap_assigned w self = fst (snd (snd (try_block w self)))"

definition smtp_assigned :: "world \<Rightarrow> bot \<Rightarrow> bool" where
  "smtp_assigned w self = fst (snd (snd (snd (try_block w self))))"

definition try_events :: "world \<Rightarrow> bot \<Rightarrow> event list" where
  "try_events w self = snd (snd (snd (snd (try_block w self))))"

definition run_exception :: "world \<Rightarrow> bot \<Rightarrow> exn option" where
  "run_exception w self = fst (run_bot w self)"

definition bot_after :: "world \<Rightarrow> bot \<Rightarrow> bot" where
  "bot_after w self = fst (snd (run_bot w self))"

definition run_events :: "world \<Rightarrow> bot \<Rightarrow> event list" where
  "run_events w self = snd (snd (run_bot w self))"

text \<open>
  What a run does to the flags: whether it reaches line 88 (both sessions created, the
  messages fetched, a link found), and whether \<open>_send_email\<close> then returns an empty
  dictionary.
\<close>

definition run_finds_link :: "world \<Rightarrow> bot \<Rightarrow> bool" where
  "run_finds_link w self =
     (case (fst (create_imap_server w self), fst (create_smtp_server w self), inbox w) of
        (Inr _, Inr _, Inr emails) \<Rightarrow>
          (case find_email self emails of Inr (Some link) \<Rightarrow> True | _ \<Rightarrow> False)
      | _ \<Rightarrow> False)"

definition run_sends_to_all :: "world \<Rightarrow> bot \<Rightarrow> bool" where
  "run_sends_to_all w self =
     (case (fst (create_imap_server w self), fst (create_smtp_server w self), inbox w) of
        (Inr _, Inr _, Inr emails) \<Rightarrow>
          (case find_email self emails of
             Inr (Some link) \<Rightarrow>
               (case fst (send_email_kwargs w self (groupdict link)) of
                  Inr failed_emails \<Rightarrow> failed_emails = []
                | Inl _ \<Rightarrow> False)
           | _ \<Rightarrow> False)
      | _ \<Rightarrow> False)"

subsection \<open>The specification's wording\<close>

text \<open>
  The specification fixes the position of each answer: \<open>not today\<close> is 0, \<open>no\<close> is 1
  and \<open>yes\<close> is 2.
\<close>

definition spec_index :: "string \<Rightarrow> nat" where
  "spec_index answer = (if answer = ''not today'' then 0 else if answer = ''no'' then 1 else 2)"

text \<open>
  The specification's recipients: the captured group percent-decoded, split at the
  commas, each piece trimmed of surrounding whitespace.
\<close>

definition is_space :: "char \<Rightarrow> bool" where
  "is_space c = (c = CHR '' '' \<or> c = CHR 0x09 \<or> c = CHR 0x0A \<or> c = CHR 0x0B
                 \<or> c = CHR 0x0C \<or> c = CHR 0x0D)"

definition spec_trim :: "string \<Rightarrow> string" where
  "spec_trim s = rev (dropWhile is_space (rev (dropWhile is_space s)))"

definition spec_recipients :: "string \<Rightarrow> string list" where
  "spec_recipients emails = map spec_trim (split_on CHR '','' (unquote emails))"

subsection \<open>Names of the groups of a pattern\<close>

fun group_names :: "item list \<Rightarrow> string list" where
  "group_names [] = []"
| "group_names (Lit l # its) = group_names its"
| "group_names (Group name # its) = name # group_names its"

subsection \<open>Concrete inputs\<close>

definition demo_bot :: bot where
  "demo_bot = \<lparr>email = ''peter@uci.edu'', password = ''zot'', response = ''no'',
                email_sent = False, email_found = False\<rparr>"

text \<open>An HTML body with the three reply links, one on each line.\<close>

definition three_links :: string where
  "three_links =
     ''mailto:a@uci.edu?subject=Not%20Today&amp;body=n'' @ [CHR 0x0A] @
     ''mailto:b@uci.edu,c@uci.edu?subject=No&amp;body=o'' @ [CHR 0x0A] @
     ''mailto:c@uci.edu?subject=Yes&amp;body=y''"

definition link_no :: re_match where
  "link_no = \<lparr>span_start = 48, span_end = 96,
               groupdict = [(''emails'', ''b@uci.edu,c@uci.edu''), (''subject'', ''No''),
                            (''body'', ''o'')]\<rparr>"

text \<open>Two complete reply links on one line.\<close>

definition first_link :: string where
  "first_link = ''mailto:a@uci.edu?subject=No&amp;body=No''"

definition second_link :: string where
  "second_link = ''mailto:b@uci.edu?subject=Yes&amp;body=Yes''"

text \<open>A world in which every call succeeds.\<close>

definition quiet_world :: "message list \<Rightarrow> failed_recipients \<Rightarrow> world" where
  "quiet_world messages failed =
     \<lparr>imap_connect = None, imap_login = None, smtp_connect = None, smtp_ehlo = None,
      smtp_starttls = None, smtp_login = None, inbox = Inr messages,
      as_string = (\<lambda>message. None),
      sendmail_reply = Inr failed, imap_logout = None, smtp_quit = None\<rparr>"

text \<open>
  The IMAP server accepts the connection and rejects the login: a wrong password.
\<close>

definition wrong_password_world :: world where
  "wrong_password_world = (quiet_world [] [])\<lparr>imap_login := Some LoginError\<rparr>"

text \<open>The SMTP server rejects the login (\<open>smtplib.SMTPAuthenticationError\<close>).\<close>

definition smtp_refuses_world :: world where
  "smtp_refuses_world =
     (quiet_world [] [])\<lparr>smtp_login := Some (OtherError ''SMTPAuthenticationError'')\<rparr>"

text \<open>
  A world in which \<open>as_string\<close> refuses a subject that holds a line feed, and a page
  whose second link has such a subject once decoded.
\<close>

definition checking_world :: "message list \<Rightarrow> failed_recipients \<Rightarrow> world" where
  "checking_world messages failed =
     (quiet_world messages failed)
       \<lparr>as_string :=
          (\<lambda>message. if CHR 0x0A \<in> set (header_subject message)
                     then Some HeaderParseError else None)\<rparr>"

definition injected_links :: string where
  "injected_links =
     ''mailto:a@uci.edu?subject=x&amp;body=n'' @ [CHR 0x0A] @
     ''mailto:b@uci.edu?subject=Hi%0ABcc:%20x@uci.edu&amp;body=o''"

definition link_injected :: re_match where
  "link_injected = \<lparr>span_start = 38, span_end = 95,
       groupdict = [(''emails'', ''b@uci.edu''), (''subject'', ''Hi%0ABcc:%20x@uci.edu''),
                    (''body'', ''o'')]\<rparr>"

definition html_message :: "string \<Rightarrow> message" where
  "html_message html_text = \<lparr>text_part = None, html_part = Some (Inr html_text)\<rparr>"

text \<open>A message whose HTML part holds bytes that its charset cannot decode.\<close>

definition undecodable_message :: message where
  "undecodable_message = \<lparr>text_part = None, html_part = Some (Inl UnicodeDecodeError)\<rparr>"

definition plain_message :: "string \<Rightarrow> message" where
  "plain_message t = \<lparr>text_part = Some t, html_part = None\<rparr>"

section \<open>Properties\<close>

subsection \<open>The address check\<close>

lemma endswith_suffix: "endswith s suf = suffix suf s"
proof
  assume "endswith s suf"
  then have d: "drop (length s - length suf) s = suf" by (simp add: endswith_def)
  have "take (length s - length suf) s @ drop (length s - length suf) s = s"
    by (rule append_take_drop_id)
  then have "s = take (length s - length suf) s @ suf" by (simp only: d)
  then show "suffix suf s" unfolding suffix_def by blast
next
  assume "suffix suf s"
  then obtain zs where "s = zs @ suf" by (auto simp: suffix_def)
  then show "endswith s suf" by (simp add: endswith_def)
qed

lemma take_eq_prefix: "(take (length sub) s = sub) = prefix sub s"
  by (metis append_eq_conv_conj prefix_def take_is_prefix)

lemma occurrences_short: "length s < length sub \<Longrightarrow> occurrences sub s = 0"
proof (induction s)
  case Nil
  then show ?case by auto
next
  case (Cons c cs)
  then show ?case by (auto dest: prefix_length_le)
qed

text \<open>No occurrence of the domain starts inside another one: it has a single \<open>@\<close>.\<close>

lemma occurrences_uci_jump:
  "occurrences uci_domain (uci_domain @ r) = 1 + occurrences uci_domain r"
  by (simp add: uci_domain_def)

lemma str_count_occurrences: "str_count s uci_domain = occurrences uci_domain s"
proof (induction "length s" arbitrary: s rule: less_induct)
  case less
  show ?case
  proof (cases "length s < length uci_domain")
    case True
    then have "occurrences uci_domain s = 0" by (rule occurrences_short)
    moreover have "str_count s uci_domain = 0"
      using True by (subst str_count.simps) (simp add: uci_domain_def)
    ultimately show ?thesis by simp
  next
    case long: False
    show ?thesis
    proof (cases "prefix uci_domain s")
      case True
      then obtain r where r: "s = uci_domain @ r" by (auto simp: prefix_def)
      have "length r < length s" using r by (simp add: uci_domain_def)
      then have "str_count r uci_domain = occurrences uci_domain r" by (rule less)
      moreover have "str_count s uci_domain = 1 + str_count r uci_domain"
        using r by (subst str_count.simps) (simp add: uci_domain_def)
      ultimately show ?thesis using r occurrences_uci_jump by simp
    next
      case False
      from long obtain c cs where s: "s = c # cs" by (cases s) (auto simp: uci_domain_def)
      have "str_count cs uci_domain = occurrences uci_domain cs" by (rule less) (simp add: s)
      moreover have "str_count s uci_domain = str_count (tl s) uci_domain"
        using long False
        by (subst str_count.simps) (simp add: take_eq_prefix, simp add: uci_domain_def)
      ultimately show ?thesis using False s by simp
    qed
  qed
qed

text \<open>
  C8. The \<open>email\<close> setter stores the address exactly when it ends with \<open>@uci.edu\<close>,
  \<open>@uci.edu\<close> occurs in it exactly once and it is longer than \<open>@uci.edu\<close>; every other
  address raises \<open>UciInvalidEmail\<close>.
\<close>

theorem email_setter_accepts_iff:
  "email_setter s =
     (if length uci_domain < length s \<and> suffix uci_domain s \<and> occurrences uci_domain s = 1
      then Inr s
      else Inl (UciInvalidEmail (invalid_email_message s)))"
  unfolding email_setter_def endswith_suffix str_count_occurrences by (rule refl)

subsection \<open>The link extractor\<close>

text \<open>
  C9. A message without an HTML part is skipped: it yields no matches, whatever its
  plain text, and the scan goes on with the next message without raising.
\<close>

theorem no_html_part_is_skipped:
  "html_part m = None \<Longrightarrow>
     parse_email m = Inr None \<and> find_email self (m # ms) = find_email self ms"
  by (simp add: parse_email_def)

theorem no_html_part_is_skipped_witness:
  "html_part (plain_message three_links) = None
   \<and> parse_email (plain_message three_links) = Inr None
   \<and> find_email demo_bot (plain_message three_links # []) = find_email demo_bot []"
proof -
  have h: "html_part (plain_message three_links) = None" by (simp add: plain_message_def)
  show ?thesis using h no_html_part_is_skipped [OF h, of demo_bot "[]"] by simp
qed

lemma init_demo: "init ''peter@uci.edu'' ''zot'' ''No'' = Inr demo_bot"
  by code_simp

lemma three_links_matches:
  "finditer mailto_pattern three_links =
    [\<lparr>span_start = 0, span_end = 47,
       groupdict = [(''emails'', ''a@uci.edu''), (''subject'', ''Not%20Today''), (''body'', ''n'')]\<rparr>,
     link_no,
     \<lparr>span_start = 97, span_end = 136,
       groupdict = [(''emails'', ''c@uci.edu''), (''subject'', ''Yes''), (''body'', ''y'')]\<rparr>]"
  by code_simp

lemma first_link_scan:
  "finditer mailto_pattern first_link =
     [\<lparr>span_start = 0, span_end = 39,
        groupdict = [(''emails'', ''a@uci.edu''), (''subject'', ''No''), (''body'', ''No'')]\<rparr>]"
  by code_simp

text \<open>The loop that counts down is indexing: it returns the element at \<open>count\<close>, if any.\<close>

lemma walk_links_nth:
  "0 \<le> c \<Longrightarrow>
     walk_links (Some c) links = Inr (if nat c < length links then Some (links ! nat c) else None)"
proof (induction links arbitrary: c)
  case Nil
  then show ?case by simp
next
  case (Cons l ls)
  show ?case
  proof (cases "c = 0")
    case True
    then show ?thesis by simp
  next
    case False
    with Cons.prems have pos: "0 \<le> c - 1" by simp
    have "nat c = Suc (nat (c - 1))" using False Cons.prems by simp
    then show ?thesis using False Cons.IH [OF pos] by simp
  qed
qed

lemma answer_index_valid:
  "r = ''not today'' \<or> r = ''no'' \<or> r = ''yes'' \<Longrightarrow> answer_index r = Some (int (spec_index r))"
  by (auto simp: answer_index_def spec_index_def)

lemma find_three_no:
  "response self = ''no'' \<Longrightarrow> find_email self [html_message three_links] = Inr (Some link_no)"
  by (simp add: parse_email_def html_message_def parse_mailto_link_def answer_index_def
        three_links_matches)

text \<open>
  C1, as the code has it. For a bot whose response is one of the three answers, the
  answer has the fixed index 0 (\<open>not today\<close>), 1 (\<open>no\<close>) or 2 (\<open>yes\<close>);
  \<open>_parse_mailto_link\<close> returns the match at that position of the scan, in order of
  appearance, and nothing when the scan has fewer matches. \<open>_find_email\<close> skips a
  message without HTML part, returns the result of the first message that has one and
  goes on to the next message otherwise, and returns \<open>None\<close> at the end; a message
  whose HTML part does not decode raises the decoding error, and no later message is
  tried.
\<close>

theorem find_email_selects_by_index:
  assumes "response self = ''not today'' \<or> response self = ''no'' \<or> response self = ''yes''"
  shows "spec_index ''not today'' = 0 \<and> spec_index ''no'' = 1 \<and> spec_index ''yes'' = 2
    \<and> answer_index (response self) = Some (int (spec_index (response self)))
    \<and> parse_mailto_link self links =
          Inr (if spec_index (response self) < length links
               then Some (links ! spec_index (response self)) else None)
    \<and> find_email self [] = Inr None
    \<and> find_email self (m # ms) =
          (case html_part m of
             None \<Rightarrow> find_email self ms
           | Some decoded \<Rightarrow>
               (case decoded of
                  Inl e \<Rightarrow> Inl e
                | Inr html_text \<Rightarrow>
                    (if spec_index (response self) < length (finditer mailto_pattern html_text)
                     then Inr (Some (finditer mailto_pattern html_text
                                       ! spec_index (response self)))
                     else find_email self ms)))"
proof -
  have idx: "answer_index (response self) = Some (int (spec_index (response self)))"
    using assms by (rule answer_index_valid)
  have link: "parse_mailto_link self ls =
      Inr (if spec_index (response self) < length ls
           then Some (ls ! spec_index (response self)) else None)" for ls
    unfolding parse_mailto_link_def idx by (subst walk_links_nth) simp_all
  have step: "find_email self (m # ms) =
          (case html_part m of
             None \<Rightarrow> find_email self ms
           | Some decoded \<Rightarrow>
               (case decoded of
                  Inl e \<Rightarrow> Inl e
                | Inr html_text \<Rightarrow>
                    (if spec_index (response self) < length (finditer mailto_pattern html_text)
                     then Inr (Some (finditer mailto_pattern html_text
                                       ! spec_index (response self)))
                     else find_email self ms)))"
    by (simp add: parse_email_def link split: option.splits sum.splits)
  have fixed: "spec_index ''not today'' = 0 \<and> spec_index ''no'' = 1 \<and> spec_index ''yes'' = 2"
    by (simp add: spec_index_def)
  show ?thesis using fixed idx link step by simp
qed

theorem find_email_selects_by_index_witness:
  "(response demo_bot = ''not today'' \<or> response demo_bot = ''no'' \<or> response demo_bot = ''yes'')
   \<and> answer_index (response demo_bot) = Some 1
   \<and> parse_mailto_link demo_bot (finditer mailto_pattern three_links) = Inr (Some link_no)
   \<and> parse_mailto_link demo_bot (finditer mailto_pattern first_link) = Inr None
   \<and> find_email demo_bot [html_message first_link, html_message three_links] = Inr (Some link_no)"
proof -
  have h: "response demo_bot = ''not today'' \<or> response demo_bot = ''no'' \<or> response demo_bot = ''yes''"
    by (simp add: demo_bot_def)
  have r: "response demo_bot = ''no''" by (simp add: demo_bot_def)
  have i: "spec_index ''no'' = 1" by (simp add: spec_index_def)
  note t = find_email_selects_by_index [OF h]
  have a: "answer_index (response demo_bot) = Some 1"
    using t [of "[]" "html_message first_link" "[]"] by (simp add: r i)
  have b: "parse_mailto_link demo_bot (finditer mailto_pattern three_links) = Inr (Some link_no)"
    using t [of "finditer mailto_pattern three_links" "html_message first_link" "[]"]
    by (simp add: r i three_links_matches)
  have c: "parse_mailto_link demo_bot (finditer mailto_pattern first_link) = Inr None"
    using t [of "finditer mailto_pattern first_link" "html_message first_link" "[]"]
    by (simp add: r i first_link_scan)
  have d2: "find_email demo_bot [html_message three_links] = Inr (Some link_no)"
    using t [of "[]" "html_message three_links" "[]"]
    by (simp add: r i three_links_matches html_message_def)
  have d: "find_email demo_bot [html_message first_link, html_message three_links] = Inr (Some link_no)"
    using t [of "[]" "html_message first_link" "[html_message three_links]"] d2
    by (simp add: r i first_link_scan html_message_def)
  show ?thesis using h a b c d by simp
qed

text \<open>
  C1 as stated fails on a message whose HTML part does not decode: the extractor
  raises instead of going on to the next message, which holds the link, and instead
  of reporting that nothing was found.
\<close>

theorem undecodable_message_stops_the_scan:
  "response demo_bot = ''no''
   \<and> find_email demo_bot [html_message three_links] = Inr (Some link_no)
   \<and> find_email demo_bot [undecodable_message, html_message three_links] = Inl UnicodeDecodeError
   \<and> find_email demo_bot [undecodable_message] = Inl UnicodeDecodeError"
proof -
  have r: "response demo_bot = ''no''" by (simp add: demo_bot_def)
  have a: "find_email demo_bot [html_message three_links] = Inr (Some link_no)"
    using r by (rule find_three_no)
  have b: "find_email demo_bot (undecodable_message # ms) = Inl UnicodeDecodeError" for ms
    by (simp add: parse_email_def undecodable_message_def)
  show ?thesis using r a b by simp
qed

lemma second_link_scan:
  "finditer mailto_pattern second_link =
     [\<lparr>span_start = 0, span_end = 41,
        groupdict = [(''emails'', ''b@uci.edu''), (''subject'', ''Yes''), (''body'', ''Yes'')]\<rparr>]"
  by code_simp

lemma two_links_scan:
  "finditer mailto_pattern (first_link @ '' '' @ second_link) =
     [\<lparr>span_start = 0, span_end = 81,
        groupdict = [(''emails'', ''a@uci.edu?subject=No&amp;body=No mailto:b@uci.edu''),
                     (''subject'', ''Yes''), (''body'', ''Yes'')]\<rparr>]"
  by code_simp

text \<open>
  C10. There are two reply links, each matched in full when it stands alone, such that
  the line holding both gives a single match; its \<open>emails\<close> group runs from the
  recipient of the first link to the recipient of the second one, so matches and the
  links of one line do not correspond one to one.
\<close>

theorem links_sharing_a_line_give_one_match:
  "\<exists>l1 l2 m e.
      finditer mailto_pattern l1 =
        [\<lparr>span_start = 0, span_end = length l1,
          groupdict = [(''emails'', ''a@uci.edu''), (''subject'', ''No''), (''body'', ''No'')]\<rparr>]
    \<and> finditer mailto_pattern l2 =
        [\<lparr>span_start = 0, span_end = length l2,
          groupdict = [(''emails'', ''b@uci.edu''), (''subject'', ''Yes''), (''body'', ''Yes'')]\<rparr>]
    \<and> CHR 0x0A \<notin> set (l1 @ '' '' @ l2)
    \<and> finditer mailto_pattern (l1 @ '' '' @ l2) = [m]
    \<and> span_start m = 0 \<and> span_end m = length (l1 @ '' '' @ l2)
    \<and> map_of (groupdict m) ''emails'' = Some e
    \<and> e = drop (length ''mailto:'') l1 @ '' '' @ take (length ''mailto:b@uci.edu'') l2"
proof -
  let ?m = "\<lparr>span_start = 0, span_end = 81,
        groupdict = [(''emails'', ''a@uci.edu?subject=No&amp;body=No mailto:b@uci.edu''),
                     (''subject'', ''Yes''), (''body'', ''Yes'')]\<rparr>"
  let ?e = "''a@uci.edu?subject=No&amp;body=No mailto:b@uci.edu''"
  have 1: "finditer mailto_pattern first_link =
        [\<lparr>span_start = 0, span_end = length first_link,
          groupdict = [(''emails'', ''a@uci.edu''), (''subject'', ''No''), (''body'', ''No'')]\<rparr>]"
    by (simp add: first_link_scan) (simp add: first_link_def)
  have 2: "finditer mailto_pattern second_link =
        [\<lparr>span_start = 0, span_end = length second_link,
          groupdict = [(''emails'', ''b@uci.edu''), (''subject'', ''Yes''), (''body'', ''Yes'')]\<rparr>]"
    by (simp add: second_link_scan) (simp add: second_link_def)
  have 3: "CHR 0x0A \<notin> set (first_link @ '' '' @ second_link)"
    by (simp add: first_link_def second_link_def)
  have 4: "finditer mailto_pattern (first_link @ '' '' @ second_link) = [?m]"
    by (rule two_links_scan)
  have 5: "span_start ?m = 0 \<and> span_end ?m = length (first_link @ '' '' @ second_link)"
    by (simp add: first_link_def second_link_def)
  have 6: "map_of (groupdict ?m) ''emails'' = Some ?e" by simp
  have 7: "?e = drop (length ''mailto:'') first_link @ '' ''
                  @ take (length ''mailto:b@uci.edu'') second_link"
    by (simp add: first_link_def second_link_def)
  show ?thesis
    apply (rule exI [of _ first_link])
    apply (rule exI [of _ second_link])
    apply (rule exI [of _ ?m])
    apply (rule exI [of _ ?e])
    using 1 2 3 4 5 6 7 apply blast
    done
qed

subsection \<open>Composing the reply\<close>

lemma split_on_not_Nil: "split_on sep s \<noteq> []"
  by (induction s) (auto split: list.splits)

lemma join_Cons_head: "join sep ((c # w) # ws) = c # join sep (w # ws)"
  by (cases ws) simp_all

text \<open>Splitting at the commas changes no character: joining the pieces gives the text back.\<close>

lemma join_split_on: "join [sep] (split_on sep s) = s"
proof (induction s)
  case Nil
  show ?case by simp
next
  case (Cons c cs)
  obtain w ws where r: "split_on sep cs = w # ws"
    using split_on_not_Nil [of sep cs] by (cases "split_on sep cs") auto
  show ?case
  proof (cases "c = sep")
    case True
    then show ?thesis using Cons r by simp
  next
    case False
    then show ?thesis using Cons r by (simp add: join_Cons_head)
  qed
qed

lemma split_on_free: "sep \<notin> set (concat (split_on sep s))"
proof (induction s)
  case Nil
  show ?case by simp
next
  case (Cons c cs)
  obtain w ws where r: "split_on sep cs = w # ws"
    using split_on_not_Nil [of sep cs] by (cases "split_on sep cs") auto
  then show ?case using Cons by auto
qed

text \<open>Decoding twice is not decoding once.\<close>

lemma unquote_twice_differs:
  "unquote ''%2541'' = ''%41'' \<and> unquote (unquote ''%2541'') = ''A''"
  by code_simp

text \<open>
  C2, as the code has it. \<open>_send_email\<close> percent-decodes the subject and the body, each
  once, into the message it composes. The recipients are the pieces of the captured
  group between its commas, as they are: the program neither decodes nor trims them;
  joined with a comma and a space they are the \<open>To\<close> header, and they are the recipient
  list handed to \<open>sendmail\<close>, which is called when \<open>as_string\<close> has not raised.
\<close>

theorem send_email_decodes_subject_and_body:
  "\<exists>tos msg.
      header_from msg = email self
    \<and> header_subject msg = unquote subject
    \<and> parts msg = [(''plain'', unquote body)]
    \<and> header_to msg = join '', '' tos
    \<and> tos = split_on CHR '','' emails
    \<and> join '','' tos = emails
    \<and> CHR '','' \<notin> set (concat tos)
    \<and> send_email w self emails subject body =
          (case as_string w msg of
             Some e \<Rightarrow> (Inl e, [])
           | None \<Rightarrow> (sendmail_reply w, [Sendmail (email self) tos msg]))"
proof -
  let ?tos = "split_on CHR '','' emails"
  let ?msg = "\<lparr>header_from = email self, header_to = join '', '' ?tos,
               header_subject = unquote subject, parts = [(''plain'', unquote body)]\<rparr>"
  have 1: "join '','' ?tos = emails" using join_split_on [of "CHR '',''" emails] by simp
  have 2: "CHR '','' \<notin> set (concat ?tos)" by (rule split_on_free)
  have 3: "send_email w self emails subject body =
          (case as_string w ?msg of
             Some e \<Rightarrow> (Inl e, [])
           | None \<Rightarrow> (sendmail_reply w, [Sendmail (email self) ?tos ?msg]))"
    by (simp add: send_email_def Let_def)
  show ?thesis
    apply (rule exI [of _ ?tos])
    apply (rule exI [of _ ?msg])
    using 1 2 3 apply simp
    done
qed

text \<open>
  C2 as stated fails: for the group \<open>a%40uci.edu, b@uci.edu\<close> the program hands
  \<open>sendmail\<close> the recipient \<open>a%40uci.edu\<close>, still percent-encoded, and \<open>b@uci.edu\<close> with
  its leading space, where decoding and trimming give \<open>a@uci.edu\<close> and \<open>b@uci.edu\<close>.
\<close>

theorem recipients_neither_decoded_nor_trimmed:
  "snd (send_email (quiet_world [] []) demo_bot ''a%40uci.edu, b@uci.edu'' ''Re%3A%20check'' ''No'')
     = [Sendmail ''peter@uci.edu'' [''a%40uci.edu'', '' b@uci.edu'']
          \<lparr>header_from = ''peter@uci.edu'', header_to = ''a%40uci.edu,  b@uci.edu'',
           header_subject = ''Re: check'', parts = [(''plain'', ''No'')]\<rparr>]
   \<and> spec_recipients ''a%40uci.edu, b@uci.edu'' = [''a@uci.edu'', ''b@uci.edu'']
   \<and> [''a%40uci.edu'', '' b@uci.edu''] \<noteq> spec_recipients ''a%40uci.edu, b@uci.edu''"
  by code_simp

subsection \<open>Every match carries the three groups\<close>

lemma first_from_SomeD: "first_from f k = Some r \<Longrightarrow> \<exists>j. f j = Some r"
  by (induction k) (auto split: option.splits)

lemma match_items_keys:
  "match_items p s = Some (gs, n) \<Longrightarrow> map fst gs = group_names p"
proof (induction p arbitrary: s gs n)
  case Nil
  then show ?case by simp
next
  case (Cons it its)
  show ?case
  proof (cases it)
    case (Lit l)
    with Cons.prems obtain gs' n' where
      "match_items its (drop (length l) s) = Some (gs', n')" and "gs = gs'"
      by (auto split: if_splits)
    then show ?thesis using Cons.IH Lit by simp
  next
    case (Group name)
    with Cons.prems have
      "first_from
         (\<lambda>k. map_option (\<lambda>(gs, n). ((name, take k s) # gs, k + n))
                (match_items its (drop k s)))
         (dot_run s) = Some (gs, n)"
      by simp
    from first_from_SomeD [OF this] obtain j where
      "map_option (\<lambda>(gs, n). ((name, take j s) # gs, j + n)) (match_items its (drop j s))
         = Some (gs, n)"
      by blast
    then obtain gs' n' where
      "match_items its (drop j s) = Some (gs', n')" and "gs = (name, take j s) # gs'"
      by auto
    then show ?thesis using Cons.IH Group by simp
  qed
qed

lemma finditer_from_keys:
  "m \<in> set (finditer_from p s pos) \<Longrightarrow> map fst (groupdict m) = group_names p"
proof (induction p s pos rule: finditer_from.induct)
  case (1 p s pos)
  show ?case
  proof (cases "length s < pos")
    case True
    then show ?thesis using "1.prems" by (simp add: finditer_from.simps)
  next
    case False
    show ?thesis
    proof (cases "match_items p (drop pos s)")
      case None
      then show ?thesis using False "1.prems" "1.IH"(1)
        by (simp add: finditer_from.simps [of p s pos])
    next
      case (Some r)
      obtain gs n where r: "r = (gs, n)" by (cases r)
      have keys: "map fst gs = group_names p"
        using Some r by (auto dest: match_items_keys)
      from "1.prems" False Some r
      have "m = \<lparr>span_start = pos, span_end = pos + n, groupdict = gs\<rparr>
            \<or> m \<in> set (finditer_from p s (max (pos + n) (pos + 1)))"
        by (simp add: finditer_from.simps [of p s pos])
      then show ?thesis
      proof
        assume "m = \<lparr>span_start = pos, span_end = pos + n, groupdict = gs\<rparr>"
        then show ?thesis using keys by simp
      next
        assume "m \<in> set (finditer_from p s (max (pos + n) (pos + 1)))"
        then show ?thesis using "1.IH"(2) [OF False Some [unfolded r] refl] by simp
      qed
    qed
  qed
qed

lemma walk_links_mem: "walk_links c ls = Inr (Some m) \<Longrightarrow> m \<in> set ls"
  by (induction ls arbitrary: c) (auto split: option.splits if_splits)

lemma parse_email_scan:
  "parse_email m = Inr (Some links) \<Longrightarrow> \<exists>h. links = finditer_from mailto_pattern h 0"
  by (auto simp: parse_email_def finditer_def split: option.splits sum.splits)

lemma find_email_keys:
  "find_email self ms = Inr (Some link) \<Longrightarrow>
     map fst (groupdict link) = [''emails'', ''subject'', ''body'']"
proof (induction ms)
  case Nil
  then show ?case by simp
next
  case (Cons m ms)
  show ?case
  proof (cases "parse_email m")
    case (Inl e)
    then show ?thesis using Cons.prems by simp
  next
    case (Inr parsed)
    show ?thesis
    proof (cases parsed)
      case None
      then show ?thesis using Cons Inr by simp
    next
      case (Some links)
      show ?thesis
      proof (cases "parse_mailto_link self links")
        case (Inl e)
        then show ?thesis using Cons.prems Inr Some by simp
      next
        case found: (Inr r)
        show ?thesis
        proof (cases r)
          case None
          then show ?thesis using Cons Inr Some found by simp
        next
          case chosen: (Some l)
          then have "l = link" using Cons.prems Inr Some found by simp
          then have "link \<in> set links"
            using found chosen walk_links_mem by (auto simp: parse_mailto_link_def)
          moreover obtain h where "links = finditer_from mailto_pattern h 0"
            using parse_email_scan Inr Some by blast
          ultimately have "map fst (groupdict link) = group_names mailto_pattern"
            using finditer_from_keys by blast
          then show ?thesis by (simp add: mailto_pattern_def)
        qed
      qed
    qed
  qed
qed

subsection \<open>One run\<close>

text \<open>The flags of the bot do not change what a run reads.\<close>

lemma parse_mailto_link_flags:
  "parse_mailto_link (self\<lparr>email_found := a\<rparr>) ls = parse_mailto_link self ls"
  "parse_mailto_link (self\<lparr>email_sent := b\<rparr>) ls = parse_mailto_link self ls"
  by (simp_all add: parse_mailto_link_def)

lemma find_email_flags:
  "find_email (self\<lparr>email_found := a\<rparr>) ms = find_email self ms"
  "find_email (self\<lparr>email_sent := b\<rparr>) ms = find_email self ms"
  by (induction ms) (simp_all add: parse_mailto_link_flags split: option.splits sum.splits)

lemma create_flags:
  "create_imap_server w (self\<lparr>email_found := a\<rparr>) = create_imap_server w self"
  "create_imap_server w (self\<lparr>email_sent := b\<rparr>) = create_imap_server w self"
  "create_smtp_server w (self\<lparr>email_found := a\<rparr>) = create_smtp_server w self"
  "create_smtp_server w (self\<lparr>email_sent := b\<rparr>) = create_smtp_server w self"
  by (simp_all add: create_imap_server_def create_smtp_server_def split: option.splits)

lemma send_email_flags:
  "send_email w (self\<lparr>email_found := a\<rparr>) e s b' = send_email w self e s b'"
  "send_email w (self\<lparr>email_sent := b\<rparr>) e s b' = send_email w self e s b'"
  by (simp_all add: send_email_def Let_def split: option.splits)

lemma send_email_kwargs_flags:
  "send_email_kwargs w (self\<lparr>email_found := a\<rparr>) k = send_email_kwargs w self k"
  "send_email_kwargs w (self\<lparr>email_sent := b\<rparr>) k = send_email_kwargs w self k"
  by (simp_all add: send_email_kwargs_def send_email_flags split: option.splits prod.splits)

text \<open>A run is its \<open>try\<close> block, then the \<open>except\<close> clauses, then the \<open>finally\<close> block.\<close>

lemma run_bot_parts:
  "run_bot w self =
     ((case fst (finally_block w (imap_assigned w self) (smtp_assigned w self)) of
         Some e \<Rightarrow> Some e
       | None \<Rightarrow> fst (except_clauses (try_result w self))),
      fst (snd (try_block w self)),
      try_events w self @ snd (except_clauses (try_result w self))
        @ snd (finally_block w (imap_assigned w self) (smtp_assigned w self)))"
proof -
  obtain r s' i sm t where tb: "try_block w self = (r, s', i, sm, t)"
    by (cases "try_block w self") auto
  obtain p te where ec: "except_clauses r = (p, te)" by (cases "except_clauses r") auto
  obtain x tf where fb: "finally_block w i sm = (x, tf)" by (cases "finally_block w i sm") auto
  show ?thesis
    by (simp add: run_bot_def try_result_def imap_assigned_def smtp_assigned_def try_events_def
          tb ec fb split: option.splits)
qed

lemma bot_after_try: "bot_after w self = fst (snd (try_block w self))"
  by (simp add: bot_after_def run_bot_parts)

lemma run_events_parts:
  "run_events w self =
     try_events w self @ snd (except_clauses (try_result w self))
       @ snd (finally_block w (imap_assigned w self) (smtp_assigned w self))"
  by (simp add: run_events_def run_bot_parts)

lemma run_exception_parts:
  "run_exception w self =
     (case fst (finally_block w (imap_assigned w self) (smtp_assigned w self)) of
        Some e \<Rightarrow> Some e
      | None \<Rightarrow> fst (except_clauses (try_result w self)))"
  by (simp add: run_exception_def run_bot_parts)

text \<open>
  A found link carries the three keyword arguments, so the call of \<open>_send_email\<close> does
  not raise \<open>TypeError\<close>.
\<close>

lemma send_email_kwargs_of_found_link:
  assumes "find_email self ms = Inr (Some link)"
  shows "\<exists>e s b. groupdict link = [(''emails'', e), (''subject'', s), (''body'', b)]
           \<and> send_email_kwargs w bot' (groupdict link) = send_email w bot' e s b"
proof -
  from find_email_keys [OF assms]
  obtain e s b where k: "groupdict link = [(''emails'', e), (''subject'', s), (''body'', b)]"
    by (auto simp: map_eq_Cons_conv)
  then show ?thesis by (simp add: send_email_kwargs_def)
qed

text \<open>The \<open>try\<close> block when both sessions are created and a link is found.\<close>

lemma try_block_found:
  assumes "fst (create_imap_server w self) = Inr ()"
    and "fst (create_smtp_server w self) = Inr ()"
    and "inbox w = Inr emails"
    and "find_email self emails = Inr (Some link)"
  shows "try_block w self =
      (case send_email_kwargs w self (groupdict link) of
         (Inl x, t4) \<Rightarrow>
           (Inl x, self\<lparr>email_found := True\<rparr>, True, True,
            snd (create_imap_server w self) @ snd (create_smtp_server w self)
              @ [FindEmails] @ t4)
       | (Inr failed_emails, t4) \<Rightarrow>
           (Inr (),
            (if length failed_emails = 0
             then self\<lparr>email_found := True, email_sent := True\<rparr>
             else self\<lparr>email_found := True\<rparr>),
            True, True,
            snd (create_imap_server w self) @ snd (create_smtp_server w self)
              @ [FindEmails] @ t4))"
proof -
  obtain t1 where c1: "create_imap_server w self = (Inr (), t1)"
    using assms(1) by (cases "create_imap_server w self") auto
  obtain t2 where c2: "create_smtp_server w self = (Inr (), t2)"
    using assms(2) by (cases "create_smtp_server w self") auto
  show ?thesis
    by (simp add: try_block_def c1 c2 find_emails_def assms(3) assms(4)
          send_email_kwargs_flags split: prod.splits sum.splits)
qed

text \<open>Runs on the page with the three links, and on an empty inbox.\<close>

lemma run_reply_page:
  "response self = ''no'' \<Longrightarrow>
     bot_after (quiet_world [html_message three_links] failed) self =
       (if failed = [] then self\<lparr>email_found := True, email_sent := True\<rparr>
        else self\<lparr>email_found := True\<rparr>)"
  by (simp add: bot_after_try try_block_def create_imap_server_def create_smtp_server_def
        quiet_world_def find_emails_def find_three_no send_email_kwargs_def send_email_def
        link_no_def del: find_email.simps)

lemma run_empty_inbox: "bot_after (quiet_world [] failed) self = self"
  by (simp add: bot_after_try try_block_def create_imap_server_def create_smtp_server_def
        quiet_world_def find_emails_def)

lemma wrong_password_try:
  "try_block wrong_password_world demo_bot =
      (Inl LoginError, demo_bot, False, False,
       [ImapConnect ''imap.gmail.com'', ImapLogin ''peter@uci.edu'' ''zot''])"
  by (simp add: try_block_def create_imap_server_def wrong_password_world_def quiet_world_def
        imap_server_domain_def) (simp add: demo_bot_def)

text \<open>
  C3, as the code has it. When both sessions are created, a link is found and
  \<open>_send_email\<close> returns its dictionary of refused recipients, the run leaves \<open>found\<close>
  true, and \<open>sent\<close> true exactly when it was true before the run or the dictionary is
  empty. A dictionary that is not empty raises nothing: the only exception that can
  leave the run is one of \<open>logout\<close> or \<open>quit\<close>.
\<close>

theorem found_link_sets_flags:
  assumes "fst (create_imap_server w self) = Inr ()"
    and "fst (create_smtp_server w self) = Inr ()"
    and "inbox w = Inr emails"
    and "find_email self emails = Inr (Some link)"
    and "fst (send_email_kwargs w self (groupdict link)) = Inr failed_emails"
  shows "email_found (bot_after w self)
    \<and> (email_sent (bot_after w self) = (email_sent self \<or> failed_emails = []))
    \<and> run_exception w self = (case imap_logout w of Some e \<Rightarrow> Some e | None \<Rightarrow> smtp_quit w)"
proof -
  obtain t4 where sk: "send_email_kwargs w self (groupdict link) = (Inr failed_emails, t4)"
    using assms(5) by (cases "send_email_kwargs w self (groupdict link)") auto
  obtain t where tb: "try_block w self =
      (Inr (), (if length failed_emails = 0
                then self\<lparr>email_found := True, email_sent := True\<rparr>
                else self\<lparr>email_found := True\<rparr>), True, True, t)"
    using try_block_found [OF assms(1-4)] sk by simp
  have 1: "email_found (bot_after w self)" by (simp add: bot_after_try tb)
  have 2: "email_sent (bot_after w self) = (email_sent self \<or> failed_emails = [])"
    by (simp add: bot_after_try tb)
  have 3: "run_exception w self = (case imap_logout w of Some e \<Rightarrow> Some e | None \<Rightarrow> smtp_quit w)"
    by (simp add: run_exception_parts imap_assigned_def smtp_assigned_def try_result_def tb
          finally_block_def except_clauses_def split: option.splits)
  show ?thesis using 1 2 3 by simp
qed

theorem found_link_sets_flags_witness:
  "fst (create_imap_server
          (quiet_world [html_message three_links] [(''c@uci.edu'', 550, ''User unknown'')]) demo_bot)
     = Inr ()
   \<and> fst (create_smtp_server
          (quiet_world [html_message three_links] [(''c@uci.edu'', 550, ''User unknown'')]) demo_bot)
     = Inr ()
   \<and> inbox (quiet_world [html_message three_links] [(''c@uci.edu'', 550, ''User unknown'')])
     = Inr [html_message three_links]
   \<and> find_email demo_bot [html_message three_links] = Inr (Some link_no)
   \<and> fst (send_email_kwargs
            (quiet_world [html_message three_links] [(''c@uci.edu'', 550, ''User unknown'')])
            demo_bot (groupdict link_no))
     = Inr [(''c@uci.edu'', 550, ''User unknown'')]
   \<and> email_found
       (bot_after (quiet_world [html_message three_links] [(''c@uci.edu'', 550, ''User unknown'')])
          demo_bot)
   \<and> \<not> email_sent
       (bot_after (quiet_world [html_message three_links] [(''c@uci.edu'', 550, ''User unknown'')])
          demo_bot)
   \<and> run_exception
       (quiet_world [html_message three_links] [(''c@uci.edu'', 550, ''User unknown'')]) demo_bot
     = None"
proof -
  let ?w = "quiet_world [html_message three_links] [(''c@uci.edu'', 550, ''User unknown'')]"
  have h1: "fst (create_imap_server ?w demo_bot) = Inr ()"
    by (simp add: create_imap_server_def quiet_world_def)
  have h2: "fst (create_smtp_server ?w demo_bot) = Inr ()"
    by (simp add: create_smtp_server_def quiet_world_def)
  have h3: "inbox ?w = Inr [html_message three_links]" by (simp add: quiet_world_def)
  have h4: "find_email demo_bot [html_message three_links] = Inr (Some link_no)"
    by (rule find_three_no) (simp add: demo_bot_def)
  have h5: "fst (send_email_kwargs ?w demo_bot (groupdict link_no))
              = Inr [(''c@uci.edu'', 550, ''User unknown'')]"
    by (simp add: send_email_kwargs_def send_email_def link_no_def quiet_world_def)
  have q: "imap_logout ?w = None \<and> smtp_quit ?w = None \<and> \<not> email_sent demo_bot"
    by (simp add: quiet_world_def demo_bot_def)
  show ?thesis
    using h1 h2 h3 h4 h5 q found_link_sets_flags [OF h1 h2 h3 h4 h5] by simp
qed

text \<open>
  C3 as stated fails on a bot that has already sent: the first run sends, the second
  finds the link again and \<open>sendmail\<close> reports a refused recipient, yet \<open>sent\<close> is true
  after it.
\<close>

theorem sent_flag_survives_failed_send:
  "fst (send_email_kwargs
          (quiet_world [html_message three_links] [(''c@uci.edu'', 550, ''User unknown'')])
          (bot_after (quiet_world [html_message three_links] []) demo_bot) (groupdict link_no))
     = Inr [(''c@uci.edu'', 550, ''User unknown'')]
   \<and> find_email (bot_after (quiet_world [html_message three_links] []) demo_bot)
        [html_message three_links] = Inr (Some link_no)
   \<and> email_sent
        (bot_after (quiet_world [html_message three_links] [(''c@uci.edu'', 550, ''User unknown'')])
           (bot_after (quiet_world [html_message three_links] []) demo_bot))"
proof -
  have r: "response demo_bot = ''no''" by (simp add: demo_bot_def)
  have first: "bot_after (quiet_world [html_message three_links] []) demo_bot
                 = demo_bot\<lparr>email_found := True, email_sent := True\<rparr>"
    using run_reply_page [OF r, of "[]"] by simp
  have r2: "response (demo_bot\<lparr>email_found := True, email_sent := True\<rparr>) = ''no''"
    by (simp add: demo_bot_def)
  show ?thesis
    by (simp add: first run_reply_page [OF r2] find_three_no [OF r2] del: find_email.simps)
       (simp add: send_email_kwargs_def send_email_def link_no_def quiet_world_def)
qed

text \<open>
  C4, as the code has it. \<open>run_bot\<close> never clears a flag. After a run \<open>found\<close> is true
  exactly when it was true before or the run found a link (both sessions created, the
  messages fetched, \<open>_find_email\<close> returned a match), and \<open>sent\<close> is true exactly when it
  was true before or \<open>_send_email\<close> returned an empty dictionary in this run; nothing
  else of the bot changes, and what the run finds and sends does not depend on the
  flags. A run that finds nothing leaves the bot as it was.
\<close>

theorem flags_accumulate:
  "bot_after w self =
     self\<lparr>email_found := email_found self \<or> run_finds_link w self,
          email_sent := email_sent self \<or> run_sends_to_all w self\<rparr>
   \<and> run_finds_link w (self\<lparr>email_found := a, email_sent := b\<rparr>) = run_finds_link w self
   \<and> run_sends_to_all w (self\<lparr>email_found := a, email_sent := b\<rparr>) = run_sends_to_all w self
   \<and> (inbox w = Inr emails \<and> find_email self emails = Inr None \<longrightarrow> bot_after w self = self)
   \<and> (fst (create_imap_server w self) = Inr () \<and> fst (create_smtp_server w self) = Inr ()
        \<and> inbox w = Inr emails \<and> find_email self emails = Inr (Some link)
      \<longrightarrow> run_finds_link w self
          \<and> run_sends_to_all w self
              = (fst (send_email_kwargs w self (groupdict link)) = Inr []))"
proof -
  have 1: "bot_after w self =
     self\<lparr>email_found := email_found self \<or> run_finds_link w self,
          email_sent := email_sent self \<or> run_sends_to_all w self\<rparr>"
    by (simp add: bot_after_try try_block_def run_finds_link_def run_sends_to_all_def
          find_emails_def send_email_kwargs_flags
          split: prod.splits sum.splits option.splits)
  have 2: "run_finds_link w (self\<lparr>email_found := a, email_sent := b\<rparr>) = run_finds_link w self"
    by (simp add: run_finds_link_def create_flags find_email_flags
          split: prod.splits sum.splits option.splits)
  have 3: "run_sends_to_all w (self\<lparr>email_found := a, email_sent := b\<rparr>)
             = run_sends_to_all w self"
    by (simp add: run_sends_to_all_def create_flags find_email_flags send_email_kwargs_flags
          split: prod.splits sum.splits option.splits)
  have 4: "inbox w = Inr emails \<and> find_email self emails = Inr None \<longrightarrow> bot_after w self = self"
    by (simp add: 1 run_finds_link_def run_sends_to_all_def split: prod.splits sum.splits)
  have 5: "fst (create_imap_server w self) = Inr () \<and> fst (create_smtp_server w self) = Inr ()
        \<and> inbox w = Inr emails \<and> find_email self emails = Inr (Some link)
      \<longrightarrow> run_finds_link w self
          \<and> run_sends_to_all w self
              = (fst (send_email_kwargs w self (groupdict link)) = Inr [])"
    by (auto simp: run_finds_link_def run_sends_to_all_def split: sum.splits)
  show ?thesis using 1 2 3 4 5 by simp
qed

theorem flags_accumulate_witness:
  "inbox (quiet_world [] []) = Inr []
   \<and> find_email (demo_bot\<lparr>email_found := True, email_sent := True\<rparr>) [] = Inr None
   \<and> bot_after (quiet_world [] []) (demo_bot\<lparr>email_found := True, email_sent := True\<rparr>)
       = demo_bot\<lparr>email_found := True, email_sent := True\<rparr>
   \<and> fst (create_imap_server (quiet_world [html_message three_links] []) demo_bot) = Inr ()
   \<and> fst (create_smtp_server (quiet_world [html_message three_links] []) demo_bot) = Inr ()
   \<and> inbox (quiet_world [html_message three_links] []) = Inr [html_message three_links]
   \<and> find_email demo_bot [html_message three_links] = Inr (Some link_no)
   \<and> run_finds_link (quiet_world [html_message three_links] []) demo_bot
   \<and> run_sends_to_all (quiet_world [html_message three_links] []) demo_bot
   \<and> bot_after (quiet_world [html_message three_links] []) demo_bot
       = demo_bot\<lparr>email_found := True, email_sent := True\<rparr>"
proof -
  let ?b = "demo_bot\<lparr>email_found := True, email_sent := True\<rparr>"
  let ?w = "quiet_world [html_message three_links] []"
  have h: "inbox (quiet_world [] []) = Inr [] \<and> find_email ?b [] = Inr None"
    by (simp add: quiet_world_def)
  have r: "response demo_bot = ''no''" by (simp add: demo_bot_def)
  have k: "fst (create_imap_server ?w demo_bot) = Inr ()
         \<and> fst (create_smtp_server ?w demo_bot) = Inr ()
         \<and> inbox ?w = Inr [html_message three_links]
         \<and> find_email demo_bot [html_message three_links] = Inr (Some link_no)"
    by (simp add: create_imap_server_def create_smtp_server_def quiet_world_def
          find_three_no [OF r] del: find_email.simps)
  have s: "fst (send_email_kwargs ?w demo_bot (groupdict link_no)) = Inr []"
    by (simp add: send_email_kwargs_def send_email_def link_no_def quiet_world_def)
  show ?thesis
    using h k s flags_accumulate [of "quiet_world [] []" ?b False False "[]" link_no]
      flags_accumulate [of ?w demo_bot False False "[html_message three_links]" link_no]
    by (simp add: demo_bot_def)
qed

text \<open>
  C4 as stated fails: after a run that found the link and sent the reply, a run on an
  empty inbox leaves the summary at true and true.
\<close>

theorem flags_survive_empty_run:
  "inbox (quiet_world [] []) = Inr []
   \<and> find_email (bot_after (quiet_world [html_message three_links] []) demo_bot) [] = Inr None
   \<and> bot_summary
        (bot_after (quiet_world [] [])
           (bot_after (quiet_world [html_message three_links] []) demo_bot)) = (True, True)"
proof -
  have r: "response demo_bot = ''no''" by (simp add: demo_bot_def)
  have first: "bot_after (quiet_world [html_message three_links] []) demo_bot
                 = demo_bot\<lparr>email_found := True, email_sent := True\<rparr>"
    using run_reply_page [OF r, of "[]"] by simp
  show ?thesis
    by (simp add: first run_empty_inbox bot_summary_def) (simp add: quiet_world_def)
qed

text \<open>
  C5, as the code has it. \<open>bot_summary\<close> returns the \<open>sent\<close> flag first and the \<open>found\<close>
  flag second, the order in which the main program unpacks it.
\<close>

theorem bot_summary_order:
  "fst (bot_summary self) = email_sent self \<and> snd (bot_summary self) = email_found self"
  by (simp add: bot_summary_def)

text \<open>
  C5 as stated fails: after a run that found the link and had a recipient refused, the
  first component of the summary is false while \<open>found\<close> is true.
\<close>

theorem summary_first_is_not_found:
  "bot_summary
     (bot_after (quiet_world [html_message three_links] [(''c@uci.edu'', 550, ''User unknown'')])
        demo_bot) = (False, True)
   \<and> email_found
       (bot_after (quiet_world [html_message three_links] [(''c@uci.edu'', 550, ''User unknown'')])
          demo_bot)
   \<and> \<not> email_sent
       (bot_after (quiet_world [html_message three_links] [(''c@uci.edu'', 550, ''User unknown'')])
          demo_bot)"
proof -
  have r: "response demo_bot = ''no''" by (simp add: demo_bot_def)
  show ?thesis
    by (simp add: run_reply_page [OF r] bot_summary_def) (simp add: demo_bot_def)
qed

text \<open>
  C6, as the code has it. When the \<open>try\<close> block raises and neither \<open>logout\<close> nor \<open>quit\<close>
  raises, the run returns normally exactly for \<open>LoginError\<close> and \<open>socket.gaierror\<close>,
  after printing its message; every other exception leaves the run. In each case the
  sessions assigned to \<open>imap_server\<close> and \<open>smtp_server\<close> are released at the end.
\<close>

theorem handled_exceptions:
  assumes "try_result w self = Inl e" and "imap_logout w = None" and "smtp_quit w = None"
  shows "run_exception w self = (if e = LoginError \<or> e = Gaierror then None else Some e)
    \<and> run_events w self =
        try_events w self
        @ (if e = LoginError
           then [Print ''UciSupportBot.run_bot: Could not connect to a imap server. Given Credentials Invalid.'']
           else if e = Gaierror
           then [Print ''UCISupportBot.run_bot: Failed to establish a connection.'']
           else [])
        @ (if imap_assigned w self then [ImapLogout] else [])
        @ (if smtp_assigned w self then [SmtpQuit] else [])"
  by (simp add: run_exception_parts run_events_parts assms except_clauses_def finally_block_def)

theorem handled_exceptions_witness:
  "try_result wrong_password_world demo_bot = Inl LoginError
   \<and> imap_logout wrong_password_world = None \<and> smtp_quit wrong_password_world = None
   \<and> run_exception wrong_password_world demo_bot = None
   \<and> run_events wrong_password_world demo_bot =
       [ImapConnect ''imap.gmail.com'', ImapLogin ''peter@uci.edu'' ''zot'',
        Print ''UciSupportBot.run_bot: Could not connect to a imap server. Given Credentials Invalid.'']"
proof -
  have h1: "try_result wrong_password_world demo_bot = Inl LoginError"
    by (simp add: try_result_def wrong_password_try)
  have h2: "imap_logout wrong_password_world = None"
    by (simp add: wrong_password_world_def quiet_world_def)
  have h3: "smtp_quit wrong_password_world = None"
    by (simp add: wrong_password_world_def quiet_world_def)
  show ?thesis
    using h1 h2 h3 handled_exceptions [OF h1 h2 h3]
    by (simp add: try_events_def imap_assigned_def smtp_assigned_def wrong_password_try)
qed

text \<open>
  C6 as stated fails: a login rejected by the SMTP server raises
  \<open>SMTPAuthenticationError\<close>, which no clause catches; it leaves the run and nothing
  is printed.
\<close>

theorem smtp_login_error_propagates:
  "run_bot smtp_refuses_world demo_bot =
     (Some (OtherError ''SMTPAuthenticationError''), demo_bot,
      [ImapConnect ''imap.gmail.com'', ImapLogin ''peter@uci.edu'' ''zot'',
       SmtpConnect ''smtp.gmail.com'' 587, SmtpEhlo, SmtpStarttls,
       SmtpLogin ''peter@uci.edu'' ''zot'', ImapLogout])"
proof -
  have tb: "try_block smtp_refuses_world demo_bot =
      (Inl (OtherError ''SMTPAuthenticationError''), demo_bot, True, False,
       [ImapConnect ''imap.gmail.com'', ImapLogin ''peter@uci.edu'' ''zot'',
        SmtpConnect ''smtp.gmail.com'' 587, SmtpEhlo, SmtpStarttls,
        SmtpLogin ''peter@uci.edu'' ''zot''])"
    by (simp add: try_block_def create_imap_server_def create_smtp_server_def
          smtp_refuses_world_def quiet_world_def imap_server_domain_def smtp_server_domain_def)
       (simp add: demo_bot_def)
  show ?thesis
    by (simp add: run_bot_def tb except_clauses_def finally_block_def)
       (simp add: smtp_refuses_world_def quiet_world_def)
qed

text \<open>
  C7 at a wrong password. \<open>IMAPClient(...)\<close> has connected when \<open>login\<close> raises
  \<open>LoginError\<close> inside \<open>_create_imap_server\<close>; \<open>imap_server\<close> is still \<open>None\<close> in
  \<open>run_bot\<close>, so the \<open>finally\<close> block calls no \<open>logout\<close>: the run returns normally and
  the connection it opened is not released.
\<close>

theorem wrong_password_leaves_connection:
  "imap_connect wrong_password_world = None
   \<and> imap_login wrong_password_world = Some LoginError
   \<and> run_bot wrong_password_world demo_bot =
       (None, demo_bot,
        [ImapConnect ''imap.gmail.com'', ImapLogin ''peter@uci.edu'' ''zot'',
         Print ''UciSupportBot.run_bot: Could not connect to a imap server. Given Credentials Invalid.''])
   \<and> count_list (run_events wrong_password_world demo_bot) ImapLogout = 0"
proof -
  have rb: "run_bot wrong_password_world demo_bot =
       (None, demo_bot,
        [ImapConnect ''imap.gmail.com'', ImapLogin ''peter@uci.edu'' ''zot'',
         Print ''UciSupportBot.run_bot: Could not connect to a imap server. Given Credentials Invalid.''])"
    by (simp add: run_bot_def wrong_password_try except_clauses_def finally_block_def)
  show ?thesis
    by (simp add: rb run_events_def) (simp add: wrong_password_world_def quiet_world_def)
qed

subsection \<open>Further facts about construction and release\<close>

text \<open>A constructed bot has both flags false and one of the three answers.\<close>

lemma init_flags:
  assumes "init s p r = Inr b"
  shows "email b = s \<and> \<not> email_sent b \<and> \<not> email_found b
     \<and> (response b = ''not today'' \<or> response b = ''no'' \<or> response b = ''yes'')"
proof -
  from assms obtain se where se: "email_setter s = Inr se"
    by (cases "email_setter s") (simp_all add: init_def)
  from assms se obtain sr where sr: "response_setter r = Inr sr"
    by (cases "response_setter r") (simp_all add: init_def)
  have b: "b = \<lparr>email = se, password = p, response = sr, email_sent = False, email_found = False\<rparr>"
    using assms se sr by (simp add: init_def)
  have "se = s" using se unfolding email_setter_def by (simp split: if_splits)
  moreover have "sr = ''not today'' \<or> sr = ''no'' \<or> sr = ''yes''"
    using sr unfolding response_setter_def by (simp split: if_splits)
  ultimately show ?thesis using b by simp
qed

text \<open>
  The \<open>try\<close> block itself releases nothing, and the \<open>finally\<close> block releases each
  session assigned to \<open>imap_server\<close> or \<open>smtp_server\<close> once, provided \<open>logout\<close> does not
  raise.
\<close>

lemma try_events_no_release:
  "ImapLogout \<notin> set (try_events w self) \<and> SmtpQuit \<notin> set (try_events w self)"
  by (simp add: try_events_def try_block_def create_imap_server_def create_smtp_server_def
        find_emails_def send_email_kwargs_def send_email_def Let_def
        split: option.splits sum.splits prod.splits)

lemma assigned_sessions_released_once:
  assumes "imap_logout w = None"
  shows "count_list (run_events w self) ImapLogout = (if imap_assigned w self then 1 else 0)
       \<and> count_list (run_events w self) SmtpQuit = (if smtp_assigned w self then 1 else 0)"
proof -
  have a: "count_list (try_events w self) ImapLogout = 0"
    using try_events_no_release [of w self] by (simp add: count_list_0_iff)
  have b: "count_list (try_events w self) SmtpQuit = 0"
    using try_events_no_release [of w self] by (simp add: count_list_0_iff)
  show ?thesis
    by (simp add: run_events_parts a b assms except_clauses_def finally_block_def
          split: sum.splits)
qed

subsection \<open>A reply that cannot be serialised\<close>

text \<open>
  When \<open>_send_email\<close> raises after a link is found, \<open>found\<close> is set, \<open>sent\<close> is left as it
  was and the exception is the outcome of the \<open>try\<close> block.
\<close>

lemma send_error_leaves_sent:
  assumes "fst (create_imap_server w self) = Inr ()"
    and "fst (create_smtp_server w self) = Inr ()"
    and "inbox w = Inr emails"
    and "find_email self emails = Inr (Some link)"
    and "fst (send_email_kwargs w self (groupdict link)) = Inl e"
  shows "bot_after w self = self\<lparr>email_found := True\<rparr> \<and> try_result w self = Inl e"
proof -
  obtain t4 where sk: "send_email_kwargs w self (groupdict link) = (Inl e, t4)"
    using assms(5) by (cases "send_email_kwargs w self (groupdict link)") auto
  show ?thesis
    using try_block_found [OF assms(1-4)] sk by (simp add: bot_after_try try_result_def)
qed

lemma injected_links_matches:
  "finditer mailto_pattern injected_links =
     [\<lparr>span_start = 0, span_end = 37,
        groupdict = [(''emails'', ''a@uci.edu''), (''subject'', ''x''), (''body'', ''n'')]\<rparr>,
      link_injected]"
  by code_simp

lemma injected_subject_decoded:
  "unquote ''Hi%0ABcc:%20x@uci.edu'' = ''Hi'' @ [CHR 0x0A] @ ''Bcc: x@uci.edu''"
  by code_simp

text \<open>
  The subject of the second link decodes to two lines, the second reading as a header.
  In a world where \<open>as_string\<close> refuses it, \<open>sendmail\<close> is not called: the run raises
  \<open>HeaderParseError\<close> with \<open>found\<close> true and \<open>sent\<close> false.
\<close>

lemma header_error_run:
  "run_exception (checking_world [html_message injected_links] []) demo_bot
     = Some HeaderParseError
   \<and> bot_summary (bot_after (checking_world [html_message injected_links] []) demo_bot)
     = (False, True)
   \<and> run_events (checking_world [html_message injected_links] []) demo_bot =
       [ImapConnect ''imap.gmail.com'', ImapLogin ''peter@uci.edu'' ''zot'',
        SmtpConnect ''smtp.gmail.com'' 587, SmtpEhlo, SmtpStarttls,
        SmtpLogin ''peter@uci.edu'' ''zot'', FindEmails, ImapLogout, SmtpQuit]"
proof -
  let ?w = "checking_world [html_message injected_links] []"
  have f: "find_email demo_bot [html_message injected_links] = Inr (Some link_injected)"
    by (simp add: parse_email_def html_message_def parse_mailto_link_def answer_index_def
          injected_links_matches demo_bot_def)
  have tb: "try_block ?w demo_bot =
      (Inl HeaderParseError, demo_bot\<lparr>email_found := True\<rparr>, True, True,
       [ImapConnect ''imap.gmail.com'', ImapLogin ''peter@uci.edu'' ''zot'',
        SmtpConnect ''smtp.gmail.com'' 587, SmtpEhlo, SmtpStarttls,
        SmtpLogin ''peter@uci.edu'' ''zot'', FindEmails])"
    by (simp add: try_block_def create_imap_server_def create_smtp_server_def
          checking_world_def quiet_world_def find_emails_def f send_email_kwargs_def
          send_email_def link_injected_def injected_subject_decoded imap_server_domain_def
          smtp_server_domain_def del: find_email.simps unquote.simps)
       (simp add: demo_bot_def)
  have rb: "run_bot ?w demo_bot =
      (Some HeaderParseError, demo_bot\<lparr>email_found := True\<rparr>,
       [ImapConnect ''imap.gmail.com'', ImapLogin ''peter@uci.edu'' ''zot'',
        SmtpConnect ''smtp.gmail.com'' 587, SmtpEhlo, SmtpStarttls,
        SmtpLogin ''peter@uci.edu'' ''zot'', FindEmails, ImapLogout, SmtpQuit])"
    by (simp add: run_bot_def tb except_clauses_def finally_block_def)
       (simp add: checking_world_def quiet_world_def)
  show ?thesis
    by (simp add: run_exception_def bot_after_def run_events_def rb bot_summary_def)
       (simp add: demo_bot_def)
qed

end
